theory Spec2Isabelle
  imports Main "HOL-Library.AList"
begin

section \<open>JavaScript strings\<close>

text \<open>
  A JavaScript string is modelled as a \<^typ>\<open>string\<close>. The model covers ASCII text:
  \<open>toLowerCase\<close> and \<open>toUpperCase\<close> map the letters A-Z and a-z and leave every other
  character as it is, and \<open>trim\<close> strips the ASCII white space characters.
\<close>

definition toLowerChar :: "char \<Rightarrow> char" where
  "toLowerChar c =
     (let n = (of_char c :: nat) in if 65 \<le> n \<and> n \<le> 90 then char_of (n + 32) else c)"

definition toUpperChar :: "char \<Rightarrow> char" where
  "toUpperChar c =
     (let n = (of_char c :: nat) in if 97 \<le> n \<and> n \<le> 122 then char_of (n - 32) else c)"

definition toLowerCase :: "string \<Rightarrow> string" where
  "toLowerCase s = map toLowerChar s"

definition toUpperCase :: "string \<Rightarrow> string" where
  "toUpperCase s = map toUpperChar s"

fun startsWith :: "string \<Rightarrow> string \<Rightarrow> bool" where
  "startsWith s [] = True"
| "startsWith [] (k # ks) = False"
| "startsWith (c # cs) (k # ks) = (c = k \<and> startsWith cs ks)"

text \<open>\<open>s.includes(k)\<close>: \<open>k\<close> occurs in \<open>s\<close> as a contiguous substring.\<close>

fun str_includes :: "string \<Rightarrow> string \<Rightarrow> bool" where
  "str_includes [] k = (k = [])"
| "str_includes (c # cs) k = (startsWith (c # cs) k \<or> str_includes cs k)"

definition isSpace :: "char \<Rightarrow> bool" where
  "isSpace c = ((of_char c :: nat) \<in> {9, 10, 11, 12, 13, 32})"

definition trim :: "string \<Rightarrow> string" where
  "trim s = rev (dropWhile isSpace (rev (dropWhile isSpace s)))"

text \<open>\<open>xs.join(sep)\<close> on an array of strings.\<close>

fun join :: "string \<Rightarrow> string list \<Rightarrow> string" where
  "join sep [] = []"
| "join sep [x] = x"
| "join sep (x # y # ys) = x @ sep @ join sep (y # ys)"

text \<open>\<open>s.charAt(0).toUpperCase() + s.slice(1)\<close>; \<open>charAt(0)\<close> of the empty string is empty.\<close>

fun capitalize :: "string \<Rightarrow> string" where
  "capitalize [] = []"
| "capitalize (c # cs) = toUpperChar c # cs"

definition isTerminator :: "char \<Rightarrow> bool" where
  "isTerminator c = (c = CHR ''.'' \<or> c = CHR ''!'' \<or> c = CHR ''?'')"

text \<open>
  \<open>text.split(/[.!?]+/)\<close>: the text is cut at every maximal run of terminators; the first
  argument is the piece read so far.
\<close>

fun splitFrom :: "string \<Rightarrow> string \<Rightarrow> string list" where
  "splitFrom cur [] = [cur]"
| "splitFrom cur (c # cs) =
     (if isTerminator c then
        (case cs of
           [] \<Rightarrow> cur # splitFrom [] cs
         | d # ds \<Rightarrow> if isTerminator d then splitFrom cur cs else cur # splitFrom [] cs)
      else splitFrom (cur @ [c]) cs)"

definition splitSentences :: "string \<Rightarrow> string list" where
  "splitSentences s = splitFrom [] s"

section \<open>Data model\<close>

record ContextClue =
  category :: string
  keyword :: string
  context' :: string

text \<open>A value stored in an object whose fields are typed \<open>any\<close>: a string or a boolean.\<close>

datatype jsval = JStr string | JBool bool

text \<open>\<open>Analysis\<close>; \<open>projectType\<close> is \<open>string | null\<close>, with \<open>None\<close> for \<open>null\<close>.\<close>

record Analysis =
  projectType :: "string option"
  detectedNeeds :: "jsval list"
  contextClues :: "ContextClue list"
  technicalTerms :: "string list"
  businessNeeds :: "jsval list"

text \<open>
  \<open>Requirements\<close> is an object with free-form keys: an association list in insertion order,
  which is the order of \<open>Object.keys\<close> and \<open>Object.entries\<close>. An assignment to a property
  replaces the value of a present key in place and appends an absent one, as
  \<^const>\<open>AList.update\<close> does.
\<close>

type_synonym Requirements = "(string \<times> jsval) list"

definition keys :: "Requirements \<Rightarrow> string list" where
  "keys r = map fst r"

text \<open>
  \<open>ProjectContext\<close>: the property \<open>projectType\<close> is present from the initial state on and
  holds a string or \<open>null\<close> (\<open>None\<close>); each other property is absent (\<open>None\<close>) until a
  spread of an \<open>Analysis\<close> stores it. The fields carry the prefix \<open>pc_\<close> to keep them apart
  from those of \<open>Analysis\<close>.
\<close>

record ProjectContext =
  pc_projectType :: "string option"
  pc_detectedNeeds :: "jsval list option"
  pc_contextClues :: "ContextClue list option"
  pc_technicalTerms :: "string list option"
  pc_businessNeeds :: "jsval list option"

datatype SessionPhase = introduction | discovery | clarification | summary

fun phaseName :: "SessionPhase \<Rightarrow> string" where
  "phaseName introduction = ''introduction''"
| "phaseName discovery = ''discovery''"
| "phaseName clarification = ''clarification''"
| "phaseName summary = ''summary''"

datatype Role = user | assistant

text \<open>
  \<open>Message\<close> without its timestamp; \<open>content\<close> is \<open>None\<close> when the gateway's answer has no
  \<open>response\<close> property (\<open>undefined\<close>).
\<close>

record Message =
  mtype :: Role
  content :: "string option"
  analysis :: "Analysis option"

text \<open>
  The component's state: the values held by its \<open>useState\<close> hooks. The text of the input
  box is an argument of \<open>handleSendMessage\<close>; the greeting that the mount effect stores in
  \<open>messages\<close> is left out of \<open>initialState\<close>.
\<close>

record State =
  messages :: "Message list"
  isTyping :: bool
  requirements :: Requirements
  projectContext :: ProjectContext
  sessionPhase :: SessionPhase

definition initialState :: State where
  "initialState =
     \<lparr>messages = [], isTyping = False,
      requirements = [(''projectType'', JStr '''')],
      projectContext =
        \<lparr>pc_projectType = Some '''', pc_detectedNeeds = None, pc_contextClues = None,
         pc_technicalTerms = None, pc_businessNeeds = None\<rparr>,
      sessionPhase = introduction\<rparr>"

section \<open>Knowledge base\<close>

record ProjectTypeData =
  keywords' :: "string list"
  criticalAreas :: "string list"
  commonFeatures :: "string list"

text \<open>\<open>aiKnowledge.projectTypes\<close>, in the order of \<open>Object.entries\<close>.\<close>

definition projectTypes :: "(string \<times> ProjectTypeData) list" where
  "projectTypes =
     [(''web application'',
       \<lparr>keywords' = [''website'', ''web app'', ''portal'', ''dashboard'', ''cms'', ''e-commerce'', ''saas''],
        criticalAreas = [''frontend'', ''backend'', ''database'', ''authentication'', ''hosting'', ''security''],
        commonFeatures = [''user management'', ''responsive design'', ''api integration'', ''payment processing'']\<rparr>),
      (''mobile application'',
       \<lparr>keywords' = [''mobile app'', ''ios'', ''android'', ''smartphone'', ''tablet'', ''native'', ''hybrid''],
        criticalAreas = [''platform'', ''ui/ux'', ''offline capability'', ''device features'', ''app store''],
        commonFeatures = [''push notifications'', ''camera integration'', ''gps'', ''social login'']\<rparr>),
      (''api/microservice'',
       \<lparr>keywords' = [''api'', ''rest'', ''graphql'', ''microservice'', ''backend'', ''integration''],
        criticalAreas = [''endpoints'', ''authentication'', ''rate limiting'', ''documentation'', ''versioning''],
        commonFeatures = [''crud operations'', ''data validation'', ''error handling'', ''logging'']\<rparr>),
      (''data/analytics'',
       \<lparr>keywords' = [''data'', ''analytics'', ''ml'', ''ai'', ''dashboard'', ''reporting'', ''etl''],
        criticalAreas = [''data sources'', ''processing'', ''visualization'', ''storage'', ''real-time''],
        commonFeatures = [''data ingestion'', ''transformation'', ''visualization'', ''alerts'']\<rparr>)]"

text \<open>\<open>aiKnowledge.contextClues\<close>.\<close>

definition contextClueKeywords :: "(string \<times> string list) list" where
  "contextClueKeywords =
     [(''urgency'', [''asap'', ''urgent'', ''deadline'', ''launch date'', ''time-sensitive'']),
      (''budget'', [''budget'', ''cost'', ''expensive'', ''cheap'', ''funding'', ''investment'']),
      (''scale'', [''users'', ''concurrent'', ''traffic'', ''load'', ''scalability'', ''growth'']),
      (''compliance'', [''gdpr'', ''hipaa'', ''pci'', ''compliance'', ''regulation'', ''security'']),
      (''integration'', [''integrate'', ''connect'', ''api'', ''third-party'', ''existing system''])]"

definition techTerms :: "string list" where
  "techTerms =
     [''database'', ''cloud'', ''aws'', ''azure'', ''docker'', ''kubernetes'', ''react'',
      ''node.js'', ''python'', ''java'']"

section \<open>Text analyzer\<close>

text \<open>\<open>sentences.find(...) || ''\<close>.\<close>

definition extractContext :: "string \<Rightarrow> string \<Rightarrow> string" where
  "extractContext txt kw =
     (case find (\<lambda>sentence. str_includes (toLowerCase sentence) kw) (splitSentences txt) of
        Some sentence \<Rightarrow> sentence
      | None \<Rightarrow> '''')"

text \<open>One round of the \<open>forEach\<close> over the project types: a matching entry assigns its type.\<close>

definition matchesType :: "string \<Rightarrow> string \<times> ProjectTypeData \<Rightarrow> bool" where
  "matchesType lowercaseInput entry =
     list_ex (\<lambda>kw. str_includes lowercaseInput kw) (keywords' (snd entry))"

definition detectStep :: "string \<Rightarrow> string \<times> ProjectTypeData \<Rightarrow> string option \<Rightarrow> string option" where
  "detectStep lowercaseInput entry found =
     (if matchesType lowercaseInput entry then Some (fst entry) else found)"

definition detectProjectType :: "string \<Rightarrow> string option" where
  "detectProjectType lowercaseInput = fold (detectStep lowercaseInput) projectTypes None"

definition clueStep :: "string \<Rightarrow> string \<Rightarrow> string \<Rightarrow> string \<Rightarrow> ContextClue list \<Rightarrow> ContextClue list" where
  "clueStep input lowercaseInput cat kw clues =
     (if str_includes lowercaseInput kw
      then clues @ [\<lparr>category = cat, keyword = kw, context' = extractContext input kw\<rparr>]
      else clues)"

definition detectContextClues :: "string \<Rightarrow> string \<Rightarrow> ContextClue list" where
  "detectContextClues input lowercaseInput =
     fold (\<lambda>entry clues. fold (clueStep input lowercaseInput (fst entry)) (snd entry) clues)
       contextClueKeywords []"

definition detectTechnicalTerms :: "string \<Rightarrow> string list" where
  "detectTechnicalTerms lowercaseInput =
     fold (\<lambda>term terms. if str_includes lowercaseInput term then terms @ [term] else terms)
       techTerms []"

definition analyzeUserInput :: "string \<Rightarrow> Analysis" where
  "analyzeUserInput input =
     (let lowercaseInput = toLowerCase input in
      \<lparr>projectType = detectProjectType lowercaseInput,
       detectedNeeds = [],
       contextClues = detectContextClues input lowercaseInput,
       technicalTerms = detectTechnicalTerms lowercaseInput,
       businessNeeds = []\<rparr>)"

section \<open>Requirements extractor\<close>

text \<open>\<open>newReqs.features || ''\<close>: the stored value when it is truthy, the empty string otherwise.\<close>

definition featuresOrEmpty :: "Requirements \<Rightarrow> string" where
  "featuresOrEmpty r =
     (case map_of r ''features'' of
        Some (JStr s) \<Rightarrow> s
      | Some (JBool b) \<Rightarrow> (if b then ''true'' else '''')
      | None \<Rightarrow> '''')"

definition timelineWords :: "string list" where
  "timelineWords = [''week'', ''month'', ''year'', ''deadline'', ''launch'']"

definition extractRequirementsFromInput :: "string \<Rightarrow> Analysis \<Rightarrow> Requirements \<Rightarrow> Requirements" where
  "extractRequirementsFromInput input an currentReqs =
     (let low = toLowerCase input;
          r1 = (if str_includes low ''user'' \<or> str_includes low ''customer''
                then AList.update ''targetUsers'' (JStr input) currentReqs else currentReqs);
          r2 = (if str_includes low ''feature'' \<or> str_includes low ''function''
                then AList.update ''features'' (JStr (featuresOrEmpty r1 @ '' '' @ input)) r1
                else r1);
          r3 = (if list_ex (\<lambda>word. str_includes low word) timelineWords
                then AList.update ''timeline'' (JStr input) r2 else r2);
          r4 = (if str_includes input ''$'' \<or> str_includes low ''budget'' \<or> str_includes low ''cost''
                then AList.update ''budget'' (JStr input) r3 else r3)
      in r4)"

section \<open>Remote response gateway and the turn\<close>

text \<open>The JSON body posted to \<open>/api/generate-response\<close>.\<close>

record Request =
  rq_userInput :: string
  rq_projectContext :: ProjectContext
  rq_sessionPhase :: SessionPhase
  rq_requirements :: Requirements

text \<open>
  What \<open>response.json()\<close> yields: it rejects on a body that is not JSON (\<open>Malformed\<close>); on
  the JSON value \<open>null\<close> the later read of \<open>data.response\<close> throws (\<open>ParsedNull\<close>);
  otherwise \<open>data.response\<close> is a string, or \<open>undefined\<close> (\<open>None\<close>) when the property is
  missing.
\<close>

datatype Body = Malformed | ParsedNull | Parsed "string option"

text \<open>What \<open>fetch\<close> does: it rejects, or resolves to a response with a status and a body.\<close>

datatype FetchOutcome = Rejected | Response nat Body

datatype js_error = NetworkError | ApiRequestFailed | SyntaxError | TypeError

text \<open>\<open>response.ok\<close>: the status is in the range 200 to 299.\<close>

definition ok :: "nat \<Rightarrow> bool" where
  "ok status = (200 \<le> status \<and> status \<le> 299)"

text \<open>Truthiness of a \<open>string | null\<close>: neither \<open>null\<close> nor the empty string.\<close>

definition truthy :: "string option \<Rightarrow> bool" where
  "truthy v = (case v of None \<Rightarrow> False | Some s \<Rightarrow> s \<noteq> [])"

text \<open>\<open>{ ...projectContext, ...analysis }\<close>: every property of the analysis is stored.\<close>

definition spreadAnalysis :: "ProjectContext \<Rightarrow> Analysis \<Rightarrow> ProjectContext" where
  "spreadAnalysis pc an =
     pc\<lparr>pc_projectType := projectType an,
        pc_detectedNeeds := Some (detectedNeeds an),
        pc_contextClues := Some (contextClues an),
        pc_technicalTerms := Some (technicalTerms an),
        pc_businessNeeds := Some (businessNeeds an)\<rparr>"

definition updateContext :: "ProjectContext \<Rightarrow> Analysis \<Rightarrow> ProjectContext" where
  "updateContext pc an =
     (let updatedContext = spreadAnalysis pc an in
      if truthy (projectType an) \<and> \<not> truthy (pc_projectType pc)
      then updatedContext\<lparr>pc_projectType := projectType an\<rparr>
      else updatedContext)"

definition fallbackMessage :: string where
  "fallbackMessage =
     ''I'm having trouble connecting to my brain right now. Please try again in a moment.''"

definition requestBody :: "State \<Rightarrow> string \<Rightarrow> Request" where
  "requestBody s userInput =
     \<lparr>rq_userInput = userInput,
      rq_projectContext = updateContext (projectContext s) (analyzeUserInput userInput),
      rq_sessionPhase = sessionPhase s,
      rq_requirements = requirements s\<rparr>"

text \<open>The phase after the turn, from the phase before it.\<close>

definition advancePhase :: "SessionPhase \<Rightarrow> ProjectContext \<Rightarrow> Requirements \<Rightarrow> SessionPhase" where
  "advancePhase ph updatedContext updatedRequirements =
     (if ph = introduction \<and> truthy (pc_projectType updatedContext) then discovery
      else if ph = discovery \<and> length (keys updatedRequirements) > 5 then clarification
      else ph)"

text \<open>
  The statements between \<open>await response.json()\<close> and the \<open>return\<close>: the three state
  setters.
\<close>

definition applyUpdates :: "State \<Rightarrow> string \<Rightarrow> State" where
  "applyUpdates s userInput =
     (let an = analyzeUserInput userInput;
          updatedContext = updateContext (projectContext s) an;
          updatedRequirements = extractRequirementsFromInput userInput an (requirements s)
      in s\<lparr>requirements := updatedRequirements,
           projectContext := updatedContext,
           sessionPhase := advancePhase (sessionPhase s) updatedContext updatedRequirements\<rparr>)"

text \<open>The body of the \<open>try\<close>: the state it leaves, and the value returned or the error thrown.\<close>

definition tryBlock :: "State \<Rightarrow> string \<Rightarrow> (Request \<Rightarrow> FetchOutcome) \<Rightarrow> State \<times> (js_error + string option)" where
  "tryBlock s userInput fetch =
     (case fetch (requestBody s userInput) of
        Rejected \<Rightarrow> (s, Inl NetworkError)
      | Response status body \<Rightarrow>
          if \<not> ok status then (s, Inl ApiRequestFailed)
          else (case body of
                  Malformed \<Rightarrow> (s, Inl SyntaxError)
                | ParsedNull \<Rightarrow> (applyUpdates s userInput, Inl TypeError)
                | Parsed v \<Rightarrow> (applyUpdates s userInput, Inr v)))"

text \<open>
  \<open>generateAIResponse\<close>: the state after the call, and how its promise settles (\<open>Inl\<close> a
  rejection, \<open>Inr\<close> the value it resolves to). The \<open>catch\<close> turns every error of the
  \<open>try\<close> into the fallback text; the \<open>finally\<close> clears \<open>isTyping\<close>.
\<close>

definition generateAIResponse :: "State \<Rightarrow> string \<Rightarrow> (Request \<Rightarrow> FetchOutcome) \<Rightarrow> State \<times> (js_error + string option)" where
  "generateAIResponse s userInput fetch =
     (let tried = tryBlock (s\<lparr>isTyping := True\<rparr>) userInput fetch;
          result = (case snd tried of
                      Inl e \<Rightarrow> Inr (Some fallbackMessage)
                    | Inr v \<Rightarrow> Inr v)
      in ((fst tried)\<lparr>isTyping := False\<rparr>, result))"

definition apologyMessage :: string where
  "apologyMessage =
     ''I apologize, but I encountered an error processing your message. Could you please try rephrasing your question?''"

definition handleSendMessage :: "State \<Rightarrow> string \<Rightarrow> (Request \<Rightarrow> FetchOutcome) \<Rightarrow> State" where
  "handleSendMessage s inputMessage fetch =
     (if trim inputMessage = [] then s
      else
        (let userMessage = \<lparr>mtype = user, content = Some inputMessage, analysis = None\<rparr>;
             s1 = s\<lparr>messages := messages s @ [userMessage]\<rparr>;
             answered = generateAIResponse s1 inputMessage fetch;
             s2 = fst answered
         in (case snd answered of
               Inr aiResponse \<Rightarrow>
                 s2\<lparr>messages := messages s2 @
                      [\<lparr>mtype = assistant, content = aiResponse,
                        analysis = Some (analyzeUserInput inputMessage)\<rparr>]\<rparr>
             | Inl e \<Rightarrow>
                 s2\<lparr>messages := messages s2 @
                      [\<lparr>mtype = assistant, content = Some apologyMessage, analysis = None\<rparr>]\<rparr>)))"

text \<open>
  A session: the turns in order, each an input text and the behaviour of the gateway on
  that turn. \<open>trace\<close> lists the states observed, the starting state first.
\<close>

fun run :: "State \<Rightarrow> (string \<times> (Request \<Rightarrow> FetchOutcome)) list \<Rightarrow> State" where
  "run s [] = s"
| "run s (t # ts) = run (handleSendMessage s (fst t) (snd t)) ts"

fun trace :: "State \<Rightarrow> (string \<times> (Request \<Rightarrow> FetchOutcome)) list \<Rightarrow> State list" where
  "trace s [] = [s]"
| "trace s (t # ts) = s # trace (handleSendMessage s (fst t) (snd t)) ts"

section \<open>Document renderer\<close>

definition isUpper :: "char \<Rightarrow> bool" where
  "isUpper c = (65 \<le> (of_char c :: nat) \<and> (of_char c :: nat) \<le> 90)"

text \<open>\<open>key.charAt(0).toUpperCase() + key.slice(1).replace(/([A-Z])/g, ' $1')\<close>.\<close>

definition heading :: "string \<Rightarrow> string" where
  "heading key =
     (case key of
        [] \<Rightarrow> []
      | c # cs \<Rightarrow> toUpperChar c # concat (map (\<lambda>d. if isUpper d then [CHR '' '', d] else [d]) cs))"

text \<open>The text one entry of the requirements adds to the document.\<close>

definition requirementSection :: "string \<times> jsval \<Rightarrow> string" where
  "requirementSection entry =
     (case snd entry of
        JStr v \<Rightarrow>
          if v \<noteq> [] \<and> trim v \<noteq> []
          then ''### '' @ heading (fst entry) @ ''\<newline>'' @ trim v @ ''\<newline>\<newline>''
          else []
      | JBool b \<Rightarrow> [])"

definition documentHead :: "ProjectContext \<Rightarrow> string \<Rightarrow> string" where
  "documentHead pc today =
     (let projectName = (if truthy (pc_projectType pc)
                         then (case pc_projectType pc of Some t \<Rightarrow> t | None \<Rightarrow> [])
                         else ''Software Project'')
      in ''# '' @ capitalize projectName @ '' Requirements Document\<newline>\<newline>''
         @ ''**Generated by AI Requirements Assistant**\<newline>''
         @ ''**Date:** '' @ today @ ''\<newline>\<newline>''
         @ ''## Executive Summary\<newline>''
         @ ''This document outlines the requirements for a ''
         @ (case pc_projectType pc of Some t \<Rightarrow> t | None \<Rightarrow> ''null'')
         @ '' based on intelligent analysis of stakeholder conversations.\<newline>\<newline>'')"

definition documentRequirements :: "Requirements \<Rightarrow> string" where
  "documentRequirements r =
     (if length (keys r) > 0
      then ''## Gathered Requirements\<newline>\<newline>'' @ concat (map requirementSection r)
      else [])"

definition documentTail :: "ProjectContext \<Rightarrow> SessionPhase \<Rightarrow> string" where
  "documentTail pc ph =
     (case pc_technicalTerms pc of
        Some ts \<Rightarrow>
          if length ts > 0
          then ''## Technical Considerations\<newline>''
               @ ''Mentioned technologies: '' @ join '', '' ts @ ''\<newline>\<newline>''
          else []
      | None \<Rightarrow> [])
     @ ''## AI Analysis Summary\<newline>''
     @ ''- **Project Type Detected:** ''
     @ (if truthy (pc_projectType pc)
        then (case pc_projectType pc of Some t \<Rightarrow> t | None \<Rightarrow> [])
        else ''Not determined'')
     @ ''\<newline>''
     @ ''- **Key Context Clues:** ''
     @ (case pc_contextClues pc of
          Some cs \<Rightarrow> join '', '' (map category cs)
        | None \<Rightarrow> ''None detected'')
     @ ''\<newline>''
     @ ''- **Conversation Phase:** '' @ phaseName ph @ ''\<newline>\<newline>''
     @ ''## Next Steps\<newline>''
     @ ''1. Review and validate the gathered requirements\<newline>''
     @ ''2. Prioritize features based on business value\<newline>''
     @ ''3. Create detailed technical specifications\<newline>''
     @ ''4. Develop project timeline and resource allocation\<newline>''"

text \<open>
  \<open>generateRequirementsDocument\<close>; the second argument is the text of
  \<open>new Date().toLocaleDateString()\<close>.
\<close>

definition generateRequirementsDocument :: "State \<Rightarrow> string \<Rightarrow> string" where
  "generateRequirementsDocument s today =
     documentHead (projectContext s) today
     @ documentRequirements (requirements s)
     @ documentTail (projectContext s) (sessionPhase s)"

text \<open>The \<open>disabled\<close> attribute of the button that downloads the document.\<close>

definition downloadDisabled :: "State \<Rightarrow> bool" where
  "downloadDisabled s = (length (keys (requirements s)) = 0)"

text \<open>The order of the phases.\<close>

fun phaseRank :: "SessionPhase \<Rightarrow> nat" where
  "phaseRank introduction = 0"
| "phaseRank discovery = 1"
| "phaseRank clarification = 2"
| "phaseRank summary = 3"

section \<open>The intermediary endpoint, failures and example states\<close>

text \<open>
  What the route \<open>POST /api/generate-response\<close> of the server answers: on success
  \<open>res.json({ response: text })\<close>, on any failure status 500 with a body that has no
  \<open>response\<close> property. \<open>networkDown\<close> is a \<open>fetch\<close> that rejects.
\<close>

definition serverAnswers :: "string \<Rightarrow> Request \<Rightarrow> FetchOutcome" where
  "serverAnswers txt rq = Response 200 (Parsed (Some txt))"

definition serverFails :: "Request \<Rightarrow> FetchOutcome" where
  "serverFails rq = Response 500 (Parsed None)"

definition networkDown :: "Request \<Rightarrow> FetchOutcome" where
  "networkDown rq = Rejected"

text \<open>The gateway call fails: \<open>fetch\<close> rejects, or the response has a non-success status.\<close>

fun gatewayFails :: "FetchOutcome \<Rightarrow> bool" where
  "gatewayFails Rejected = True"
| "gatewayFails (Response status body) = (\<not> ok status)"

text \<open>
  The call reaches the three state setters: the response has a success status and its
  body parses as JSON (the value \<open>null\<close> included, since \<open>data.response\<close> is read after
  the setters).
\<close>

fun storesUpdates :: "FetchOutcome \<Rightarrow> bool" where
  "storesUpdates Rejected = False"
| "storesUpdates (Response status body) = (ok status \<and> body \<noteq> Malformed)"

text \<open>A gateway that answers with a success status and a body that is not JSON.\<close>

definition answersMalformed :: "Request \<Rightarrow> FetchOutcome" where
  "answersMalformed rq = Response 200 Malformed"

text \<open>The state of a session after one answered turn that mentions a technology and a deadline.\<close>

definition reactState :: State where
  "reactState =
     run initialState [(''We use react and need it asap'', serverAnswers ''Who will use it?'')]"

text \<open>The part of the state that a turn updates.\<close>

definition core :: "State \<Rightarrow> Requirements \<times> ProjectContext \<times> SessionPhase" where
  "core s = (requirements s, projectContext s, sessionPhase s)"

text \<open>
  The state of the scenario of the document renderer: the requirements hold
  \<open>targetUsers\<close> only and the detected type is a web application.
\<close>

definition shopState :: State where
  "shopState =
     initialState
       \<lparr>requirements := [(''targetUsers'', JStr ''shop owners'')],
        projectContext := (projectContext initialState)\<lparr>pc_projectType := Some ''web application''\<rparr>\<rparr>"

text \<open>
  A state in the discovery phase whose record has six keys, the sixth set outside the
  extractor.
\<close>

definition sixFieldState :: State where
  "sixFieldState =
     initialState
       \<lparr>requirements :=
          [(''projectType'', JStr ''''), (''targetUsers'', JStr ''shop owners''),
           (''features'', JStr '' a cart''), (''timeline'', JStr ''two months''),
           (''budget'', JStr ''$5000''), (''hosting'', JStr ''cloud'')],
        sessionPhase := discovery\<rparr>"

text \<open>The keys the initial state and the extractor can store.\<close>

definition extractorKeys :: "string list" where
  "extractorKeys = [''projectType'', ''targetUsers'', ''features'', ''timeline'', ''budget'']"

section \<open>Substrings\<close>

lemma startsWith_iff: "startsWith s k \<longleftrightarrow> (\<exists>ss. s = k @ ss)"
  by (induction s k rule: startsWith.induct) auto

lemma str_includes_iff: "str_includes s k \<longleftrightarrow> (\<exists>ps ss. s = ps @ k @ ss)"
proof (induction s)
  case Nil
  then show ?case by simp
next
  case (Cons c cs)
  show ?case
  proof
    assume "str_includes (c # cs) k"
    then consider "startsWith (c # cs) k" | "str_includes cs k" by auto
    then show "\<exists>ps ss. c # cs = ps @ k @ ss"
    proof cases
      case 1
      then obtain ss where "c # cs = k @ ss" by (auto simp: startsWith_iff)
      then have "c # cs = [] @ k @ ss" by simp
      then show ?thesis by blast
    next
      case 2
      then obtain ps ss where "cs = ps @ k @ ss" using Cons.IH by blast
      then have "c # cs = (c # ps) @ k @ ss" by simp
      then show ?thesis by blast
    qed
  next
    assume "\<exists>ps ss. c # cs = ps @ k @ ss"
    then obtain ps ss where eq: "c # cs = ps @ k @ ss" by blast
    show "str_includes (c # cs) k"
    proof (cases ps)
      case Nil
      with eq have "startsWith (c # cs) k" by (auto simp: startsWith_iff)
      then show ?thesis by simp
    next
      case (Cons p ps')
      with eq have "cs = ps' @ k @ ss" by simp
      then have "str_includes cs k" using Cons.IH by blast
      then show ?thesis by simp
    qed
  qed
qed

section \<open>What a turn does to the state\<close>

lemma requestBody_isTyping [simp]: "requestBody (s\<lparr>isTyping := b\<rparr>) u = requestBody s u"
  by (simp add: requestBody_def)

lemma requestBody_messages [simp]: "requestBody (s\<lparr>messages := m\<rparr>) u = requestBody s u"
  by (simp add: requestBody_def)

lemma applyUpdates_requirements:
  "requirements (applyUpdates s u) =
     extractRequirementsFromInput u (analyzeUserInput u) (requirements s)"
  by (simp add: applyUpdates_def Let_def)

lemma applyUpdates_projectContext:
  "projectContext (applyUpdates s u) = updateContext (projectContext s) (analyzeUserInput u)"
  by (simp add: applyUpdates_def Let_def)

lemma applyUpdates_sessionPhase:
  "sessionPhase (applyUpdates s u) =
     advancePhase (sessionPhase s) (updateContext (projectContext s) (analyzeUserInput u))
       (extractRequirementsFromInput u (analyzeUserInput u) (requirements s))"
  by (simp add: applyUpdates_def Let_def)

lemma core_isTyping [simp]: "core (s\<lparr>isTyping := b\<rparr>) = core s"
  by (simp add: core_def)

lemma core_messages [simp]: "core (s\<lparr>messages := m\<rparr>) = core s"
  by (simp add: core_def)

lemma core_eqD:
  "core a = core b \<Longrightarrow>
     requirements a = requirements b \<and> projectContext a = projectContext b
     \<and> sessionPhase a = sessionPhase b"
  by (simp add: core_def)

lemma applyUpdates_isTyping:
  "core (applyUpdates (s\<lparr>isTyping := b\<rparr>) u) = core (applyUpdates s u)"
  by (simp add: core_def applyUpdates_def Let_def)

lemma applyUpdates_messages:
  "core (applyUpdates (s\<lparr>messages := m\<rparr>) u) = core (applyUpdates s u)"
  by (simp add: core_def applyUpdates_def Let_def)

lemma tryBlock_fails:
  "gatewayFails (fetch (requestBody s u)) \<Longrightarrow> \<exists>e. tryBlock s u fetch = (s, Inl e)"
  by (cases "fetch (requestBody s u)") (auto simp: tryBlock_def)

lemma tryBlock_core:
  "core (fst (tryBlock s u fetch)) = core s
   \<or> core (fst (tryBlock s u fetch)) = core (applyUpdates s u)"
  by (auto simp: tryBlock_def split: FetchOutcome.splits Body.splits)

lemma generateAIResponse_core:
  "core (fst (generateAIResponse s u fetch)) = core s \<or>
   core (fst (generateAIResponse s u fetch)) = core (applyUpdates s u)"
  using tryBlock_core [of "s\<lparr>isTyping := True\<rparr>" u fetch]
  by (auto simp: generateAIResponse_def Let_def applyUpdates_isTyping)

text \<open>The promise of \<open>generateAIResponse\<close> never rejects.\<close>

lemma generateAIResponse_resolves: "\<exists>v. snd (generateAIResponse s u fetch) = Inr v"
  by (auto simp: generateAIResponse_def Let_def split: sum.splits)

lemma generateAIResponse_fails:
  assumes "gatewayFails (fetch (requestBody s u))"
  shows "generateAIResponse s u fetch = (s\<lparr>isTyping := False\<rparr>, Inr (Some fallbackMessage))"
proof -
  from assms have "gatewayFails (fetch (requestBody (s\<lparr>isTyping := True\<rparr>) u))" by simp
  then obtain e where
    "tryBlock (s\<lparr>isTyping := True\<rparr>) u fetch = (s\<lparr>isTyping := True\<rparr>, Inl e)"
    using tryBlock_fails by blast
  then show ?thesis by (simp add: generateAIResponse_def Let_def)
qed

lemma handleSendMessage_core_gen:
  "core (handleSendMessage s u fetch) =
     (if trim u = [] then core s
      else core (fst (generateAIResponse
             (s\<lparr>messages := messages s @ [\<lparr>mtype = user, content = Some u, analysis = None\<rparr>]\<rparr>)
             u fetch)))"
  by (auto simp: handleSendMessage_def Let_def split: sum.splits)

lemma handleSendMessage_core:
  "core (handleSendMessage s u fetch) = core s \<or>
   core (handleSendMessage s u fetch) = core (applyUpdates s u)"
  using generateAIResponse_core
    [of "s\<lparr>messages := messages s @ [\<lparr>mtype = user, content = Some u, analysis = None\<rparr>]\<rparr>" u fetch]
  by (auto simp: handleSendMessage_core_gen applyUpdates_messages)

section \<open>Gateway failures\<close>

text \<open>
  C9: on every turn on which the gateway call fails (\<open>fetch\<close> rejects, or the response has
  a non-success status), the requirements record, the project context and the session
  phase are after the turn exactly what they were before it, both for
  \<open>generateAIResponse\<close> and for the handler of the send button that calls it.
\<close>

theorem gateway_failure_leaves_state:
  assumes "gatewayFails (fetch (requestBody s userInput))"
  shows "requirements (fst (generateAIResponse s userInput fetch)) = requirements s
       \<and> projectContext (fst (generateAIResponse s userInput fetch)) = projectContext s
       \<and> sessionPhase (fst (generateAIResponse s userInput fetch)) = sessionPhase s
       \<and> requirements (handleSendMessage s userInput fetch) = requirements s
       \<and> projectContext (handleSendMessage s userInput fetch) = projectContext s
       \<and> sessionPhase (handleSendMessage s userInput fetch) = sessionPhase s"
proof -
  have g: "generateAIResponse s userInput fetch =
             (s\<lparr>isTyping := False\<rparr>, Inr (Some fallbackMessage))"
    using assms by (rule generateAIResponse_fails)
  let ?s1 = "s\<lparr>messages := messages s @
               [\<lparr>mtype = user, content = Some userInput, analysis = None\<rparr>]\<rparr>"
  from assms have "gatewayFails (fetch (requestBody ?s1 userInput))" by simp
  then have g1: "generateAIResponse ?s1 userInput fetch =
                   (?s1\<lparr>isTyping := False\<rparr>, Inr (Some fallbackMessage))"
    by (rule generateAIResponse_fails)
  have "core (handleSendMessage s userInput fetch) = core s"
    by (simp add: handleSendMessage_core_gen g1)
  then show ?thesis using g by (simp add: core_def)
qed

theorem gateway_failure_leaves_state_witness:
  "gatewayFails (serverFails (requestBody initialState ''I want a web app for selling shoes''))
   \<and> requirements (handleSendMessage initialState ''I want a web app for selling shoes'' serverFails)
       = [(''projectType'', JStr '''')]
   \<and> pc_projectType (projectContext
         (handleSendMessage initialState ''I want a web app for selling shoes'' serverFails))
       = Some ''''
   \<and> sessionPhase (handleSendMessage initialState ''I want a web app for selling shoes'' serverFails)
       = introduction"
proof -
  have f: "gatewayFails (serverFails (requestBody initialState ''I want a web app for selling shoes''))"
    by (simp add: serverFails_def ok_def)
  show ?thesis
    using f gateway_failure_leaves_state [where fetch = serverFails and s = initialState
        and userInput = "''I want a web app for selling shoes''"]
    by (simp add: initialState_def)
qed

text \<open>
  C7: whenever the gateway call fails (a rejected \<open>fetch\<close>, or any non-success status such
  as the 500 of the intermediary), \<open>generateAIResponse\<close> resolves to the fixed fallback
  text, which begins "I'm having trouble connecting" and asks to "try again"; nothing is
  thrown to the caller, so the handler appends the fallback as the assistant's message
  and never its own apology.
\<close>

theorem gateway_failure_returns_fallback:
  assumes "gatewayFails (fetch (requestBody s userInput))"
  shows "snd (generateAIResponse s userInput fetch) = Inr (Some fallbackMessage)
       \<and> startsWith fallbackMessage ''I'm having trouble connecting''
       \<and> str_includes fallbackMessage ''try again''
       \<and> messages (handleSendMessage s userInput fetch) =
           (if trim userInput = [] then messages s
            else messages s @
              [\<lparr>mtype = user, content = Some userInput, analysis = None\<rparr>,
               \<lparr>mtype = assistant, content = Some fallbackMessage,
                analysis = Some (analyzeUserInput userInput)\<rparr>])"
proof -
  have g: "generateAIResponse s userInput fetch =
             (s\<lparr>isTyping := False\<rparr>, Inr (Some fallbackMessage))"
    using assms by (rule generateAIResponse_fails)
  let ?s1 = "s\<lparr>messages := messages s @
               [\<lparr>mtype = user, content = Some userInput, analysis = None\<rparr>]\<rparr>"
  from assms have "gatewayFails (fetch (requestBody ?s1 userInput))" by simp
  then have g1: "generateAIResponse ?s1 userInput fetch =
                   (?s1\<lparr>isTyping := False\<rparr>, Inr (Some fallbackMessage))"
    by (rule generateAIResponse_fails)
  have a: "startsWith fallbackMessage ''I'm having trouble connecting''"
    by (simp add: fallbackMessage_def)
  have b: "str_includes fallbackMessage ''try again''"
    by (simp add: fallbackMessage_def)
  have c: "messages (handleSendMessage s userInput fetch) =
           (if trim userInput = [] then messages s
            else messages s @
              [\<lparr>mtype = user, content = Some userInput, analysis = None\<rparr>,
               \<lparr>mtype = assistant, content = Some fallbackMessage,
                analysis = Some (analyzeUserInput userInput)\<rparr>])"
    by (simp add: handleSendMessage_def Let_def g1)
  show ?thesis using g a b c by simp
qed

theorem gateway_failure_returns_fallback_witness:
  "gatewayFails (serverFails (requestBody initialState ''I need an api''))
   \<and> gatewayFails (networkDown (requestBody initialState ''I need an api''))
   \<and> snd (generateAIResponse initialState ''I need an api'' serverFails) =
       Inr (Some ''I'm having trouble connecting to my brain right now. Please try again in a moment.'')
   \<and> snd (generateAIResponse initialState ''I need an api'' networkDown) =
       Inr (Some ''I'm having trouble connecting to my brain right now. Please try again in a moment.'')"
proof -
  have f: "gatewayFails (serverFails (requestBody initialState ''I need an api''))"
    by (simp add: serverFails_def ok_def)
  have n: "gatewayFails (networkDown (requestBody initialState ''I need an api''))"
    by (simp add: networkDown_def)
  show ?thesis
    using f n
      gateway_failure_returns_fallback
        [where fetch = serverFails and s = initialState and userInput = "''I need an api''"]
      gateway_failure_returns_fallback
        [where fetch = networkDown and s = initialState and userInput = "''I need an api''"]
    by (simp add: fallbackMessage_def)
qed

section \<open>Session phase\<close>

lemma advancePhase_mono: "phaseRank ph \<le> phaseRank (advancePhase ph c r)"
  by (cases ph) (simp_all add: advancePhase_def)

lemma handleSendMessage_phase_mono:
  "phaseRank (sessionPhase s) \<le> phaseRank (sessionPhase (handleSendMessage s u fetch))"
  using handleSendMessage_core [of s u fetch]
  by (auto dest!: core_eqD simp: applyUpdates_sessionPhase advancePhase_mono)

lemma generateAIResponse_phase_mono:
  "phaseRank (sessionPhase s) \<le> phaseRank (sessionPhase (fst (generateAIResponse s u fetch)))"
  using generateAIResponse_core [of s u fetch]
  by (auto dest!: core_eqD simp: applyUpdates_sessionPhase advancePhase_mono)

lemma trace_lower_bound:
  "x \<in> set (trace s ts) \<Longrightarrow> phaseRank (sessionPhase s) \<le> phaseRank (sessionPhase x)"
proof (induction ts arbitrary: s)
  case Nil
  then show ?case by simp
next
  case (Cons t ts)
  from Cons.prems consider "x = s" | "x \<in> set (trace (handleSendMessage s (fst t) (snd t)) ts)"
    by auto
  then show ?case
  proof cases
    case 1
    then show ?thesis by simp
  next
    case 2
    then have "phaseRank (sessionPhase (handleSendMessage s (fst t) (snd t)))
                 \<le> phaseRank (sessionPhase x)"
      by (rule Cons.IH)
    then show ?thesis
      using handleSendMessage_phase_mono [of s "fst t" "snd t"] by linarith
  qed
qed

text \<open>
  C4: for any sequence of turns, from the initial state as from any other, the session
  phases observed over time are non-decreasing in the order introduction, discovery,
  clarification, summary; no single turn, and no single call of \<open>generateAIResponse\<close>,
  moves the phase to an earlier value.
\<close>

theorem phase_never_regresses:
  "sorted (map (\<lambda>x. phaseRank (sessionPhase x)) (trace initialState ts))
   \<and> sorted (map (\<lambda>x. phaseRank (sessionPhase x)) (trace s ts))
   \<and> phaseRank (sessionPhase s) \<le> phaseRank (sessionPhase (handleSendMessage s userInput fetch))
   \<and> phaseRank (sessionPhase s)
       \<le> phaseRank (sessionPhase (fst (generateAIResponse s userInput fetch)))"
proof -
  have "sorted (map (\<lambda>x. phaseRank (sessionPhase x)) (trace s' ts))" for s'
  proof (induction ts arbitrary: s')
    case Nil
    then show ?case by simp
  next
    case (Cons t ts)
    have "phaseRank (sessionPhase s') \<le> phaseRank (sessionPhase x)"
      if "x \<in> set (trace (handleSendMessage s' (fst t) (snd t)) ts)" for x
      using trace_lower_bound [OF that] handleSendMessage_phase_mono [of s' "fst t" "snd t"]
      by linarith
    with Cons.IH show ?case by auto
  qed
  then show ?thesis
    by (simp add: handleSendMessage_phase_mono generateAIResponse_phase_mono)
qed

section \<open>Project-type detection\<close>

lemma fold_detectStep:
  "fold (detectStep l) xs acc =
     (if filter (matchesType l) xs = [] then acc
      else Some (fst (last (filter (matchesType l) xs))))"
  by (induction xs arbitrary: acc) (auto simp: detectStep_def)

text \<open>
  C5: for every utterance, \<open>analyzeUserInput\<close> scans the project-type entries in
  enumeration order and assigns the type of each entry one of whose keywords is a substring
  of the lower-cased utterance, so the detected type is that of the last matching entry
  (\<open>null\<close> when none matches). The utterance "I want a web app for selling shoes" matches
  the entry of the web application only, through the keyword "web app" and no other, and
  its detected type is 'web application'.
\<close>

theorem last_matching_project_type_wins:
  "projectType (analyzeUserInput input) =
     (if filter (matchesType (toLowerCase input)) projectTypes = [] then None
      else Some (fst (last (filter (matchesType (toLowerCase input)) projectTypes))))
   \<and> map fst (filter (matchesType (toLowerCase ''I want a web app for selling shoes'')) projectTypes)
       = [''web application'']
   \<and> filter (str_includes (toLowerCase ''I want a web app for selling shoes''))
         (concat (map (\<lambda>entry. keywords' (snd entry)) projectTypes))
       = [''web app'']
   \<and> projectType (analyzeUserInput ''I want a web app for selling shoes'') = Some ''web application''"
proof -
  have a: "projectType (analyzeUserInput input) =
     (if filter (matchesType (toLowerCase input)) projectTypes = [] then None
      else Some (fst (last (filter (matchesType (toLowerCase input)) projectTypes))))"
    by (simp add: analyzeUserInput_def Let_def detectProjectType_def fold_detectStep)
  have b: "map fst (filter (matchesType (toLowerCase ''I want a web app for selling shoes'')) projectTypes)
       = [''web application'']"
    by code_simp
  have c: "projectType (analyzeUserInput ''I want a web app for selling shoes'') = Some ''web application''"
    by code_simp
  have d: "filter (str_includes (toLowerCase ''I want a web app for selling shoes''))
         (concat (map (\<lambda>entry. keywords' (snd entry)) projectTypes))
       = [''web app'']"
    by code_simp
  from a b c d show ?thesis by blast
qed

section \<open>Keys of the requirements record\<close>

lemma keys_update: "set (keys (AList.update k v r)) = insert k (set (keys r))"
  by (auto simp: keys_def update_keys)

lemma extract_keys_superset:
  "set (keys r) \<subseteq> set (keys (extractRequirementsFromInput u an r))"
  by (auto simp: extractRequirementsFromInput_def Let_def keys_update)

lemma handleSendMessage_requirements:
  "requirements (handleSendMessage s u fetch) = requirements s
   \<or> requirements (handleSendMessage s u fetch) =
       extractRequirementsFromInput u (analyzeUserInput u) (requirements s)"
  using handleSendMessage_core [of s u fetch]
  by (auto simp: core_def applyUpdates_requirements)

lemma handleSendMessage_keys:
  "set (keys (requirements s)) \<subseteq> set (keys (requirements (handleSendMessage s u fetch)))"
proof -
  from handleSendMessage_requirements [of s u fetch]
  consider "requirements (handleSendMessage s u fetch) = requirements s"
    | "requirements (handleSendMessage s u fetch) =
         extractRequirementsFromInput u (analyzeUserInput u) (requirements s)"
    by blast
  then show ?thesis
  proof cases
    case 1
    then show ?thesis by simp
  next
    case 2
    then show ?thesis
      using extract_keys_superset [of "requirements s" u "analyzeUserInput u"] by simp
  qed
qed

lemma run_keys: "set (keys (requirements s)) \<subseteq> set (keys (requirements (run s ts)))"
proof (induction ts arbitrary: s)
  case Nil
  then show ?case by simp
next
  case (Cons t ts)
  have "set (keys (requirements s)) \<subseteq> set (keys (requirements (handleSendMessage s (fst t) (snd t))))"
    by (rule handleSendMessage_keys)
  also have "\<dots> \<subseteq> set (keys (requirements (run (handleSendMessage s (fst t) (snd t)) ts)))"
    by (rule Cons.IH)
  finally show ?case by simp
qed

lemma fold_extract_keys:
  "set (keys r) \<subseteq> set (keys (fold (\<lambda>c. extractRequirementsFromInput (fst c) (snd c)) calls r))"
proof (induction calls arbitrary: r)
  case Nil
  then show ?case by simp
next
  case (Cons c calls)
  have "set (keys r) \<subseteq> set (keys (extractRequirementsFromInput (fst c) (snd c) r))"
    by (rule extract_keys_superset)
  also have "\<dots> \<subseteq> set (keys (fold (\<lambda>c. extractRequirementsFromInput (fst c) (snd c)) calls
                 (extractRequirementsFromInput (fst c) (snd c) r)))"
    by (rule Cons.IH)
  finally show ?case by simp
qed

text \<open>
  C6: for every utterance, classification and prior record, the keys of the record the
  extractor returns include the keys of the prior record; so do the keys after any
  sequence of extractor calls, and the keys of the stored record after any sequence of
  turns of a session.
\<close>

theorem requirement_keys_never_shrink:
  "set (keys priorRecord) \<subseteq> set (keys (extractRequirementsFromInput utterance classification priorRecord))
   \<and> set (keys priorRecord) \<subseteq>
       set (keys (fold (\<lambda>c. extractRequirementsFromInput (fst c) (snd c)) calls priorRecord))
   \<and> set (keys (requirements s)) \<subseteq> set (keys (requirements (run s ts)))"
  using extract_keys_superset fold_extract_keys run_keys by blast

section \<open>Project context\<close>

text \<open>
  The spread stores the detection of the latest utterance, \<open>null\<close> included; the guarded
  assignment that follows it stores the same value again.
\<close>

lemma updateContext_projectType: "pc_projectType (updateContext pc an) = projectType an"
  by (simp add: updateContext_def spreadAnalysis_def Let_def)

text \<open>
  C1: the claim is that a stored non-empty project type survives a later utterance with
  no detection. Evaluated on a session from the initial state: the first turn stores
  'web application'; the second utterance, "hello", detects nothing, and after it the
  stored project type is \<open>null\<close>.
\<close>

theorem null_detection_overwrites_project_type:
  "pc_projectType (projectContext (run initialState
       [(''I want a web app for selling shoes'', serverAnswers ''Who will use it?'')]))
     = Some ''web application''
   \<and> projectType (analyzeUserInput ''hello'') = None
   \<and> pc_projectType (projectContext (run initialState
       [(''I want a web app for selling shoes'', serverAnswers ''Who will use it?''),
        (''hello'', serverAnswers ''Who will use it?'')]))
     = None"
  by code_simp

text \<open>
  A session in which a recorded technical term and a recorded context clue are gone after
  the next turn.
\<close>

theorem earlier_terms_and_clues_lost:
  "pc_technicalTerms (projectContext (run initialState
       [(''We use react and need it asap'', serverAnswers ''Who will use it?'')]))
     = Some [''react'']
   \<and> pc_contextClues (projectContext (run initialState
       [(''We use react and need it asap'', serverAnswers ''Who will use it?'')]))
     = Some [\<lparr>category = ''urgency'', keyword = ''asap'', context' = ''We use react and need it asap''\<rparr>]
   \<and> pc_technicalTerms (projectContext (run initialState
       [(''We use react and need it asap'', serverAnswers ''Who will use it?''),
        (''hello'', serverAnswers ''Who will use it?'')]))
     = Some []
   \<and> pc_contextClues (projectContext (run initialState
       [(''We use react and need it asap'', serverAnswers ''Who will use it?''),
        (''hello'', serverAnswers ''Who will use it?'')]))
     = Some []"
  by code_simp

lemma updateContext_terms: "pc_technicalTerms (updateContext pc an) = Some (technicalTerms an)"
  by (simp add: updateContext_def spreadAnalysis_def Let_def)

lemma updateContext_clues: "pc_contextClues (updateContext pc an) = Some (contextClues an)"
  by (simp add: updateContext_def spreadAnalysis_def Let_def)

lemma tryBlock_state:
  "fst (tryBlock s u fetch) =
     (if storesUpdates (fetch (requestBody s u)) then applyUpdates s u else s)"
  by (auto simp: tryBlock_def split: FetchOutcome.splits Body.splits)

lemma generateAIResponse_projectContext:
  "projectContext (fst (generateAIResponse s u fetch)) =
     (if storesUpdates (fetch (requestBody s u))
      then updateContext (projectContext s) (analyzeUserInput u)
      else projectContext s)"
  by (simp add: generateAIResponse_def Let_def tryBlock_state applyUpdates_def)

lemma handleSendMessage_projectContext:
  "projectContext (handleSendMessage s u fetch) =
     (if trim u \<noteq> [] \<and> storesUpdates (fetch (requestBody s u))
      then updateContext (projectContext s) (analyzeUserInput u)
      else projectContext s)"
proof -
  let ?s1 = "s\<lparr>messages := messages s @
               [\<lparr>mtype = user, content = Some u, analysis = None\<rparr>]\<rparr>"
  have "projectContext (handleSendMessage s u fetch) =
      (if trim u = [] then projectContext s
       else projectContext (fst (generateAIResponse ?s1 u fetch)))"
    using handleSendMessage_core_gen [of s u fetch] by (simp add: core_def split: if_splits)
  then show ?thesis by (simp add: generateAIResponse_projectContext)
qed

text \<open>
  C2, as amended: updating the project context with the classification of a new utterance
  replaces the stored technical terms and context clues by those of that classification.
  A turn whose input is not blank and whose gateway response has a success status and a
  body that parses stores exactly the technical terms and context clues of the utterance
  of the turn, and the terms and clues of earlier utterances are gone; every other turn
  (blank input, rejected \<open>fetch\<close>, non-success status, body that does not parse) leaves
  the stored terms and clues as they were. The same holds for a call of
  \<open>generateAIResponse\<close>, without the condition on blank input.
\<close>

theorem context_holds_latest_classification:
  "pc_technicalTerms (updateContext pc an) = Some (technicalTerms an)
   \<and> pc_contextClues (updateContext pc an) = Some (contextClues an)
   \<and> pc_technicalTerms (projectContext (handleSendMessage s u fetch)) =
       (if trim u \<noteq> [] \<and> storesUpdates (fetch (requestBody s u))
        then Some (technicalTerms (analyzeUserInput u))
        else pc_technicalTerms (projectContext s))
   \<and> pc_contextClues (projectContext (handleSendMessage s u fetch)) =
       (if trim u \<noteq> [] \<and> storesUpdates (fetch (requestBody s u))
        then Some (contextClues (analyzeUserInput u))
        else pc_contextClues (projectContext s))
   \<and> pc_technicalTerms (projectContext (fst (generateAIResponse s u fetch))) =
       (if storesUpdates (fetch (requestBody s u))
        then Some (technicalTerms (analyzeUserInput u))
        else pc_technicalTerms (projectContext s))
   \<and> pc_contextClues (projectContext (fst (generateAIResponse s u fetch))) =
       (if storesUpdates (fetch (requestBody s u))
        then Some (contextClues (analyzeUserInput u))
        else pc_contextClues (projectContext s))"
  by (simp add: handleSendMessage_projectContext generateAIResponse_projectContext
      updateContext_terms updateContext_clues)

text \<open>
  The four kinds of turn after a state that holds the term react: an answered turn
  replaces it by the terms of "hello", which are none; a status 500, a body that does not
  parse and a blank input keep it.
\<close>

theorem context_holds_latest_classification_witness:
  "trim ''hello'' \<noteq> []
   \<and> storesUpdates (serverAnswers ''Who will use it?'' (requestBody reactState ''hello''))
   \<and> pc_technicalTerms (projectContext reactState) = Some [''react'']
   \<and> pc_technicalTerms (projectContext
         (handleSendMessage reactState ''hello'' (serverAnswers ''Who will use it?''))) = Some []
   \<and> pc_contextClues (projectContext
         (handleSendMessage reactState ''hello'' (serverAnswers ''Who will use it?''))) = Some []
   \<and> \<not> storesUpdates (serverFails (requestBody reactState ''hello''))
   \<and> pc_technicalTerms (projectContext (handleSendMessage reactState ''hello'' serverFails))
       = Some [''react'']
   \<and> \<not> storesUpdates (answersMalformed (requestBody reactState ''hello''))
   \<and> pc_technicalTerms (projectContext (handleSendMessage reactState ''hello'' answersMalformed))
       = Some [''react'']
   \<and> trim ''   '' = []
   \<and> pc_technicalTerms (projectContext
         (handleSendMessage reactState ''   '' (serverAnswers ''Who will use it?'')))
       = Some [''react'']"
proof -
  have t: "trim ''hello'' \<noteq> []" by code_simp
  have b: "trim ''   '' = []" by code_simp
  have p: "storesUpdates (serverAnswers ''Who will use it?'' (requestBody reactState ''hello''))"
    by (simp add: serverAnswers_def ok_def)
  have q: "\<not> storesUpdates (serverFails (requestBody reactState ''hello''))"
    by (simp add: serverFails_def ok_def)
  have m: "\<not> storesUpdates (answersMalformed (requestBody reactState ''hello''))"
    by (simp add: answersMalformed_def)
  have r: "pc_technicalTerms (projectContext reactState) = Some [''react'']" by code_simp
  have h: "technicalTerms (analyzeUserInput ''hello'') = []" by code_simp
  have c: "contextClues (analyzeUserInput ''hello'') = []" by code_simp
  show ?thesis
    using t b p q m r h c
      context_holds_latest_classification
        [where s = reactState and u = "''hello''" and fetch = "serverAnswers ''Who will use it?''"]
      context_holds_latest_classification
        [where s = reactState and u = "''hello''" and fetch = serverFails]
      context_holds_latest_classification
        [where s = reactState and u = "''hello''" and fetch = answersMalformed]
      context_holds_latest_classification
        [where s = reactState and u = "''   ''" and fetch = "serverAnswers ''Who will use it?''"]
    by simp
qed

section \<open>The request of a turn\<close>





section \<open>The rendered document\<close>

lemma str_includes_append:
  "str_includes b k \<Longrightarrow> str_includes (a @ b @ c) k"
proof -
  assume "str_includes b k"
  then obtain ps ss where "b = ps @ k @ ss" by (auto simp: str_includes_iff)
  then have "a @ b @ c = (a @ ps) @ k @ (ss @ c)" by simp
  then show ?thesis unfolding str_includes_iff by blast
qed

lemma str_includes_trans:
  "str_includes s k \<Longrightarrow> str_includes k k' \<Longrightarrow> str_includes s k'"
proof -
  assume "str_includes s k" and "str_includes k k'"
  then obtain ps ss ps' ss' where "s = ps @ k @ ss" and "k = ps' @ k' @ ss'"
    by (auto simp: str_includes_iff)
  then have "s = (ps @ ps') @ k' @ (ss' @ ss)" by simp
  then show ?thesis unfolding str_includes_iff by blast
qed

lemma concat_sections_include:
  assumes "e \<in> set r"
  shows "str_includes (concat (map requirementSection r)) (requirementSection e)"
proof -
  from assms obtain xs ys where "r = xs @ e # ys" by (auto dest: split_list)
  then have "concat (map requirementSection r) =
      concat (map requirementSection xs) @ requirementSection e @ concat (map requirementSection ys)"
    by simp
  then show ?thesis unfolding str_includes_iff by blast
qed

lemma targetUsers_section:
  "requirementSection (''targetUsers'', JStr ''shop owners'')
     = ''### Target Users\<newline>shop owners\<newline>\<newline>''"
  by code_simp

lemma toUpperChar_w: "toUpperChar CHR ''w'' = CHR ''W''"
  by code_simp

text \<open>
  C8: when the requirements record holds \<open>targetUsers\<close> with the value "shop owners" and
  the detected type of the project context is "web application", the rendered document
  contains the heading "Target Users" followed by the body "shop owners", under a title
  made from the project type.
\<close>

theorem document_has_target_users_section:
  assumes "(''targetUsers'', JStr ''shop owners'') \<in> set (requirements s)"
    and "pc_projectType (projectContext s) = Some ''web application''"
  shows "str_includes (generateRequirementsDocument s today)
           ''### Target Users\<newline>shop owners\<newline>\<newline>''
       \<and> str_includes (generateRequirementsDocument s today) ''Target Users''
       \<and> str_includes (generateRequirementsDocument s today) ''shop owners''
       \<and> startsWith (generateRequirementsDocument s today)
           ''# Web application Requirements Document\<newline>''"
proof -
  let ?sec = "''### Target Users\<newline>shop owners\<newline>\<newline>''"
  from assms(1) have ne: "requirements s \<noteq> []" by auto
  have "str_includes (concat (map requirementSection (requirements s))) ?sec"
    using concat_sections_include [OF assms(1)] by (simp only: targetUsers_section)
  then have "str_includes (documentRequirements (requirements s)) ?sec"
    using ne str_includes_append [of _ ?sec "''## Gathered Requirements\<newline>\<newline>''" "[]"]
    by (simp add: documentRequirements_def keys_def)
  then have a: "str_includes (generateRequirementsDocument s today) ?sec"
    unfolding generateRequirementsDocument_def by (rule str_includes_append)
  have "str_includes ?sec ''Target Users''" by code_simp
  with a have b: "str_includes (generateRequirementsDocument s today) ''Target Users''"
    by (rule str_includes_trans)
  have "str_includes ?sec ''shop owners''" by code_simp
  with a have c: "str_includes (generateRequirementsDocument s today) ''shop owners''"
    by (rule str_includes_trans)
  have d: "startsWith (generateRequirementsDocument s today)
           ''# Web application Requirements Document\<newline>''"
    using assms(2)
    by (simp add: generateRequirementsDocument_def documentHead_def truthy_def Let_def
        toUpperChar_w startsWith_iff)
  from a b c d show ?thesis by blast
qed

theorem document_has_target_users_section_witness:
  "(''targetUsers'', JStr ''shop owners'') \<in> set (requirements shopState)
   \<and> pc_projectType (projectContext shopState) = Some ''web application''
   \<and> str_includes (generateRequirementsDocument shopState ''1/2/2026'')
        ''### Target Users\<newline>shop owners\<newline>\<newline>''
   \<and> str_includes (generateRequirementsDocument shopState ''1/2/2026'') ''Target Users''
   \<and> str_includes (generateRequirementsDocument shopState ''1/2/2026'') ''shop owners''"
proof -
  have p: "(''targetUsers'', JStr ''shop owners'') \<in> set (requirements shopState)"
    by (simp add: shopState_def)
  have q: "pc_projectType (projectContext shopState) = Some ''web application''"
    by (simp add: shopState_def)
  from document_has_target_users_section [OF p q, of "''1/2/2026''"] p q show ?thesis by blast
qed

text \<open>The whole document of the scenario.\<close>

lemma shopState_document:
  "generateRequirementsDocument shopState ''1/2/2026'' =
     ''# Web application Requirements Document\<newline>\<newline>''
     @ ''**Generated by AI Requirements Assistant**\<newline>''
     @ ''**Date:** 1/2/2026\<newline>\<newline>''
     @ ''## Executive Summary\<newline>''
     @ ''This document outlines the requirements for a web application based on intelligent analysis of stakeholder conversations.\<newline>\<newline>''
     @ ''## Gathered Requirements\<newline>\<newline>''
     @ ''### Target Users\<newline>''
     @ ''shop owners\<newline>\<newline>''
     @ ''## AI Analysis Summary\<newline>''
     @ ''- **Project Type Detected:** web application\<newline>''
     @ ''- **Key Context Clues:** None detected\<newline>''
     @ ''- **Conversation Phase:** introduction\<newline>\<newline>''
     @ ''## Next Steps\<newline>''
     @ ''1. Review and validate the gathered requirements\<newline>''
     @ ''2. Prioritize features based on business value\<newline>''
     @ ''3. Create detailed technical specifications\<newline>''
     @ ''4. Develop project timeline and resource allocation\<newline>''"
  by code_simp

section \<open>Key count\<close>

lemma extract_distinct:
  "distinct (keys r) \<Longrightarrow> distinct (keys (extractRequirementsFromInput u an r))"
  by (simp add: extractRequirementsFromInput_def Let_def keys_def distinct_update)

lemma extract_known:
  "set (keys r) \<subseteq> set extractorKeys \<Longrightarrow>
     set (keys (extractRequirementsFromInput u an r)) \<subseteq> set extractorKeys"
  by (auto simp: extractRequirementsFromInput_def Let_def keys_update extractorKeys_def)

lemma handleSendMessage_distinct:
  "distinct (keys (requirements s)) \<Longrightarrow> distinct (keys (requirements (handleSendMessage s u fetch)))"
  using handleSendMessage_requirements [of s u fetch] extract_distinct by auto

lemma handleSendMessage_known:
  "set (keys (requirements s)) \<subseteq> set extractorKeys \<Longrightarrow>
     set (keys (requirements (handleSendMessage s u fetch))) \<subseteq> set extractorKeys"
  using handleSendMessage_requirements [of s u fetch]
    extract_known [of "requirements s" u "analyzeUserInput u"]
  by auto

lemma distinct_known_length:
  assumes "distinct (keys r)" and "set (keys r) \<subseteq> set extractorKeys"
  shows "length (keys r) \<le> 5"
proof -
  have "length (keys r) = card (set (keys r))"
    using assms(1) by (simp add: distinct_card)
  also have "\<dots> \<le> card (set extractorKeys)"
    using assms(2) by (simp add: card_mono)
  also have "\<dots> \<le> length extractorKeys" by (rule card_length)
  also have "\<dots> = 5" by (simp add: extractorKeys_def)
  finally show ?thesis .
qed

text \<open>
  In a session from the initial state the record never has more than five keys, so the
  phase stays before clarification.
\<close>

lemma session_invariant:
  "distinct (keys (requirements s)) \<and> set (keys (requirements s)) \<subseteq> set extractorKeys
     \<and> phaseRank (sessionPhase s) \<le> 1 \<Longrightarrow>
   distinct (keys (requirements (run s ts)))
     \<and> set (keys (requirements (run s ts))) \<subseteq> set extractorKeys
     \<and> phaseRank (sessionPhase (run s ts)) \<le> 1"
proof (induction ts arbitrary: s)
  case Nil
  then show ?case by simp
next
  case (Cons t ts)
  let ?s' = "handleSendMessage s (fst t) (snd t)"
  have d: "distinct (keys (requirements ?s'))"
    using Cons.prems by (simp add: handleSendMessage_distinct)
  have k: "set (keys (requirements ?s')) \<subseteq> set extractorKeys"
    using Cons.prems by (simp add: handleSendMessage_known)
  have "sessionPhase ?s' = sessionPhase s
        \<or> sessionPhase ?s' = advancePhase (sessionPhase s)
             (updateContext (projectContext s) (analyzeUserInput (fst t))) (requirements ?s')"
    using handleSendMessage_core [of s "fst t" "snd t"]
    by (auto simp: core_def applyUpdates_sessionPhase applyUpdates_requirements)
  moreover have "length (keys (requirements ?s')) \<le> 5"
    using d k by (rule distinct_known_length)
  ultimately have "phaseRank (sessionPhase ?s') \<le> 1"
    using Cons.prems by (cases "sessionPhase s") (auto simp: advancePhase_def)
  with d k show ?case using Cons.IH [of ?s'] by simp
qed

lemma session_never_clarifies:
  "length (keys (requirements (run initialState ts))) \<le> 5
   \<and> sessionPhase (run initialState ts) \<noteq> clarification
   \<and> sessionPhase (run initialState ts) \<noteq> summary"
proof -
  have "distinct (keys (requirements initialState))
      \<and> set (keys (requirements initialState)) \<subseteq> set extractorKeys
      \<and> phaseRank (sessionPhase initialState) \<le> 1"
    by (simp add: initialState_def keys_def extractorKeys_def)
  then have inv: "distinct (keys (requirements (run initialState ts)))
     \<and> set (keys (requirements (run initialState ts))) \<subseteq> set extractorKeys
     \<and> phaseRank (sessionPhase (run initialState ts)) \<le> 1"
    by (rule session_invariant)
  then have "length (keys (requirements (run initialState ts))) \<le> 5"
    by (simp add: distinct_known_length)
  moreover from inv have "sessionPhase (run initialState ts) \<noteq> clarification"
    "sessionPhase (run initialState ts) \<noteq> summary"
    by auto
  ultimately show ?thesis by simp
qed

lemma filter_absent: "a \<notin> set xs \<Longrightarrow> filter (\<lambda>k. k \<noteq> a) xs = xs"
  by (induction xs) auto

lemma distinct_filter_length:
  "distinct xs \<Longrightarrow> length xs \<le> Suc (length (filter (\<lambda>k. k \<noteq> a) xs))"
  by (induction xs) (auto simp: filter_absent)

lemma fires_needs_six:
  assumes "sessionPhase s = discovery"
    and "sessionPhase (handleSendMessage s u fetch) = clarification"
  shows "5 < length (keys (requirements (handleSendMessage s u fetch)))"
proof -
  from handleSendMessage_core [of s u fetch]
  consider "core (handleSendMessage s u fetch) = core s"
    | "core (handleSendMessage s u fetch) = core (applyUpdates s u)"
    by blast
  then show ?thesis
  proof cases
    case 1
    then have "sessionPhase (handleSendMessage s u fetch) = sessionPhase s"
      by (simp add: core_def)
    with assms show ?thesis by simp
  next
    case 2
    then have r: "requirements (handleSendMessage s u fetch) =
        extractRequirementsFromInput u (analyzeUserInput u) (requirements s)"
      and p: "sessionPhase (handleSendMessage s u fetch) =
        advancePhase (sessionPhase s) (updateContext (projectContext s) (analyzeUserInput u))
          (extractRequirementsFromInput u (analyzeUserInput u) (requirements s))"
      by (simp_all add: core_def applyUpdates_requirements applyUpdates_sessionPhase)
    from p assms show ?thesis
      by (simp add: r advancePhase_def split: if_splits)
  qed
qed

text \<open>
  C10: in every state of a session from the initial state the requirements record has the
  key \<open>projectType\<close>, so its key count is at least 1 and the download control is never
  disabled. In any state whose record has distinct keys, a turn that moves the phase from
  discovery to clarification leaves a record with at least five keys other than
  \<open>projectType\<close>.
\<close>

theorem projectType_key_always_present:
  "''projectType'' \<in> set (keys (requirements (run initialState ts)))
   \<and> 1 \<le> length (keys (requirements (run initialState ts)))
   \<and> \<not> downloadDisabled (run initialState ts)
   \<and> (distinct (keys (requirements s)) \<and> sessionPhase s = discovery
        \<and> sessionPhase (handleSendMessage s u fetch) = clarification \<longrightarrow>
      5 \<le> length (filter (\<lambda>k. k \<noteq> ''projectType'')
             (keys (requirements (handleSendMessage s u fetch)))))"
proof -
  have "''projectType'' \<in> set (keys (requirements initialState))"
    by (simp add: initialState_def keys_def)
  then have a: "''projectType'' \<in> set (keys (requirements (run initialState ts)))"
    using run_keys [of initialState ts] by blast
  then have ne: "keys (requirements (run initialState ts)) \<noteq> []" by auto
  then have b: "1 \<le> length (keys (requirements (run initialState ts)))"
    by (cases "keys (requirements (run initialState ts))") simp_all
  from ne have c: "\<not> downloadDisabled (run initialState ts)"
    by (simp add: downloadDisabled_def)
  have d: "5 \<le> length (filter (\<lambda>k. k \<noteq> ''projectType'')
             (keys (requirements (handleSendMessage s u fetch))))"
    if "distinct (keys (requirements s))" and "sessionPhase s = discovery"
      and "sessionPhase (handleSendMessage s u fetch) = clarification"
  proof -
    have "distinct (keys (requirements (handleSendMessage s u fetch)))"
      using that(1) by (rule handleSendMessage_distinct)
    then have "length (keys (requirements (handleSendMessage s u fetch)))
        \<le> Suc (length (filter (\<lambda>k. k \<noteq> ''projectType'')
             (keys (requirements (handleSendMessage s u fetch)))))"
      by (rule distinct_filter_length)
    moreover have "5 < length (keys (requirements (handleSendMessage s u fetch)))"
      using that(2,3) by (rule fires_needs_six)
    ultimately show ?thesis by linarith
  qed
  from a b c d show ?thesis by blast
qed

theorem projectType_key_always_present_witness:
  "''projectType'' \<in> set (keys (requirements (run initialState
       [(''Our users are shop owners'', serverAnswers ''What is the budget?'')])))
   \<and> distinct (keys (requirements sixFieldState))
   \<and> sessionPhase sixFieldState = discovery
   \<and> sessionPhase (handleSendMessage sixFieldState ''hello'' (serverAnswers ''What is the budget?''))
       = clarification
   \<and> 5 \<le> length (filter (\<lambda>k. k \<noteq> ''projectType'')
        (keys (requirements
           (handleSendMessage sixFieldState ''hello'' (serverAnswers ''What is the budget?'')))))"
proof -
  have p1: "distinct (keys (requirements sixFieldState))" by code_simp
  have p2: "sessionPhase sixFieldState = discovery" by code_simp
  have p3: "sessionPhase (handleSendMessage sixFieldState ''hello''
      (serverAnswers ''What is the budget?'')) = clarification"
    by code_simp
  note inst = projectType_key_always_present [where ts = "[(''Our users are shop owners'', serverAnswers ''What is the budget?'')]"
      and s = sixFieldState and u = "''hello''" and fetch = "serverAnswers ''What is the budget?''"]
  from inst p1 p2 p3 show ?thesis by blast
qed

end
